theory Spec2Isabelle
  imports Main "HOL-Library.Sublist"
begin

chapter \<open>The model\<close>

section \<open>Strings\<close>

text \<open>
  A Python \<open>str\<close> is a sequence of Unicode code points; it is modelled as the list of
  the code points' numbers. Literals of the source are written as such lists (the holiday
  names and messages are Cyrillic); \<open>ascii\<close> embeds an ASCII literal.
\<close>

type_synonym ustr = "nat list"

definition ascii :: "string \<Rightarrow> ustr" where
  "ascii s = map of_char s"

text \<open>\<open>needle in hay\<close>: the needle occurs as a contiguous run.\<close>

fun str_contains :: "ustr \<Rightarrow> ustr \<Rightarrow> bool" where
  "str_contains needle [] = (needle = [])"
| "str_contains needle (c # cs) = (prefix needle (c # cs) \<or> str_contains needle cs)"

text \<open>
  \<open>str.lower()\<close> on the blocks the program's texts are written in: Basic Latin,
  Latin-1 Supplement and the Cyrillic letters U+0400..U+045F. Code points outside these
  blocks are returned as they are; on strings over these blocks the function is the
  interpreter's.
\<close>

definition lower_cp :: "nat \<Rightarrow> nat" where
  "lower_cp c =
     (if 0x41 \<le> c \<and> c \<le> 0x5A then c + 32
      else if 0xC0 \<le> c \<and> c \<le> 0xDE \<and> c \<noteq> 0xD7 then c + 32
      else if 0x400 \<le> c \<and> c \<le> 0x40F then c + 80
      else if 0x410 \<le> c \<and> c \<le> 0x42F then c + 32
      else c)"

definition py_lower :: "ustr \<Rightarrow> ustr" where
  "py_lower s = map lower_cp s"

text \<open>\<open>sep.join(xs)\<close>.\<close>

fun py_join :: "ustr \<Rightarrow> ustr list \<Rightarrow> ustr" where
  "py_join sep [] = []"
| "py_join sep [x] = x"
| "py_join sep (x # y # ys) = x @ sep @ py_join sep (y # ys)"

text \<open>\<open>str(n)\<close> for a natural number: its decimal digits.\<close>

fun dec_str :: "nat \<Rightarrow> ustr" where
  "dec_str n = (if n < 10 then [48 + n] else dec_str (n div 10) @ [48 + n mod 10])"

declare dec_str.simps [simp del]

section \<open>Text primitives of the interpreter\<close>

text \<open>
  \<open>str.isspace\<close> of one code point, which is what \<open>str.strip()\<close> removes at both ends.
\<close>

definition is_space :: "nat \<Rightarrow> bool" where
  "is_space c =
     ((0x09 \<le> c \<and> c \<le> 0x0D) \<or> (0x1C \<le> c \<and> c \<le> 0x20) \<or> c = 0x85 \<or> c = 0xA0
      \<or> c = 0x1680 \<or> (0x2000 \<le> c \<and> c \<le> 0x200A) \<or> c = 0x2028 \<or> c = 0x2029
      \<or> c = 0x202F \<or> c = 0x205F \<or> c = 0x3000)"

definition py_strip :: "ustr \<Rightarrow> ustr" where
  "py_strip s = rev (dropWhile is_space (rev (dropWhile is_space s)))"

text \<open>\<open>s.split(sep)\<close> for a separator of one character; the result is never empty.\<close>

fun py_split :: "nat \<Rightarrow> ustr \<Rightarrow> ustr list" where
  "py_split sep [] = [[]]"
| "py_split sep (c # cs) =
     (if c = sep then [] # py_split sep cs
      else (case py_split sep cs of p # ps \<Rightarrow> (c # p) # ps | [] \<Rightarrow> [[c]]))"

text \<open>
  \<open>int(s)\<close> in base 10. The interpreter first maps every non-ASCII white space to a blank
  and every Unicode decimal digit to its ASCII digit, then reads: blanks, an optional
  sign, digits (single underscores allowed between digits), blanks, end of text. The
  ASCII separators U+001C..U+001F are white space for \<open>strip\<close> but not for \<open>int\<close>.
  \<open>ND_ZEROS\<close> lists the zero of each run of ten decimal digits (general category Nd,
  Unicode 14.0). A text of more than \<open>int_max_str_digits\<close> digits is refused (the
  interpreter's default limit).
\<close>

definition int_space :: "nat \<Rightarrow> bool" where
  "int_space c = (is_space c \<and> \<not> (0x1C \<le> c \<and> c \<le> 0x1F))"

definition ND_ZEROS :: "nat list" where
  "ND_ZEROS =
     [0x30, 0x660, 0x6F0, 0x7C0, 0x966, 0x9E6, 0xA66, 0xAE6, 0xB66, 0xBE6, 0xC66, 0xCE6,
      0xD66, 0xDE6, 0xE50, 0xED0, 0xF20, 0x1040, 0x1090, 0x17E0, 0x1810, 0x1946, 0x19D0,
      0x1A80, 0x1A90, 0x1B50, 0x1BB0, 0x1C40, 0x1C50, 0xA620, 0xA8D0, 0xA900, 0xA9D0,
      0xA9F0, 0xAA50, 0xABF0, 0xFF10, 0x104A0, 0x10D30, 0x11066, 0x110F0, 0x11136,
      0x111D0, 0x112F0, 0x11450, 0x114D0, 0x11650, 0x116C0, 0x11730, 0x118E0, 0x11950,
      0x11C50, 0x11D50, 0x11DA0, 0x16A60, 0x16AC0, 0x16B50, 0x1D7CE, 0x1D7D8, 0x1D7E2,
      0x1D7EC, 0x1D7F6, 0x1E140, 0x1E2F0, 0x1E950, 0x1FBF0]"

definition digit_val :: "nat \<Rightarrow> nat option" where
  "digit_val c =
     (case find (\<lambda>z. z \<le> c \<and> c < z + 10) ND_ZEROS of
        None \<Rightarrow> None
      | Some z \<Rightarrow> Some (c - z))"

text \<open>The digits of a digit run: it starts and ends with a digit, underscores stand alone.\<close>

fun digit_run :: "ustr \<Rightarrow> nat list option" where
  "digit_run [] = None"
| "digit_run [c] = map_option (\<lambda>d. [d]) (digit_val c)"
| "digit_run (c # c' # cs) =
     (case digit_val c of
        None \<Rightarrow> None
      | Some d \<Rightarrow>
          map_option ((#) d) (if c' = 0x5F then digit_run cs else digit_run (c' # cs)))"

definition int_max_str_digits :: nat where
  "int_max_str_digits = 4300"

definition digits_value :: "nat list \<Rightarrow> nat" where
  "digits_value ds = foldl (\<lambda>a d. 10 * a + d) 0 ds"

definition py_int :: "ustr \<Rightarrow> int option" where
  "py_int s =
     (let t = dropWhile int_space s;
          negative = (case t of c # _ \<Rightarrow> c = 0x2D | [] \<Rightarrow> False);
          u = (case t of c # cs \<Rightarrow> if c = 0x2B \<or> c = 0x2D then cs else t | [] \<Rightarrow> t);
          body = takeWhile (\<lambda>c. \<not> int_space c) u;
          trail = dropWhile (\<lambda>c. \<not> int_space c) u
      in if \<not> list_all int_space trail then None
         else (case digit_run body of
                 None \<Rightarrow> None
               | Some ds \<Rightarrow>
                   if length ds > int_max_str_digits then None
                   else Some (if negative then - int (digits_value ds)
                              else int (digits_value ds))))"

text \<open>\<open>f"{n:0wd}"\<close>: decimal, the sign first, zeros up to the width \<open>w\<close>.\<close>

definition zpad :: "nat \<Rightarrow> nat \<Rightarrow> ustr" where
  "zpad w n = replicate (w - length (dec_str n)) 0x30 @ dec_str n"

definition fmt_0wd :: "nat \<Rightarrow> int \<Rightarrow> ustr" where
  "fmt_0wd w n = (if n < 0 then 0x2D # zpad (w - 1) (nat (- n)) else zpad w (nat n))"

section \<open>Exceptions\<close>

datatype exn =
    ValueError ustr
  | RuntimeError ustr
  | OverflowError
  | UnicodeDecodeError
  | AttributeError

section \<open>Validation of the autopost time\<close>

text \<open>The two messages of \<open>_normalize_time\<close>: "time must have the format HH:MM" and
  "invalid value of hours or minutes".\<close>

definition MSG_TIME_FORMAT :: ustr where
  "MSG_TIME_FORMAT =
     [1042, 1088, 1077, 1084, 1103, 32, 1076, 1086, 1083, 1078, 1085, 1086, 32, 1073, 1099,
      1090, 1100, 32, 1074, 32, 1092, 1086, 1088, 1084, 1072, 1090, 1077, 32, 1063, 1063,
      58, 1052, 1052]"

definition MSG_TIME_RANGE :: ustr where
  "MSG_TIME_RANGE =
     [1053, 1077, 1076, 1086, 1087, 1091, 1089, 1090, 1080, 1084, 1086, 1077, 32, 1079,
      1085, 1072, 1095, 1077, 1085, 1080, 1077, 32, 1095, 1072, 1089, 1086, 1074, 32, 1080,
      1083, 1080, 32, 1084, 1080, 1085, 1091, 1090]"

definition normalize_time :: "ustr \<Rightarrow> exn + ustr" where
  "normalize_time v =
     (let valuestrip = py_strip v
      in if valuestrip = [] then Inl (ValueError MSG_TIME_FORMAT)
         else (case py_split 0x3A valuestrip of
                 [hour_s, minute_s] \<Rightarrow>
                   (case py_int hour_s of
                      None \<Rightarrow> Inl (ValueError MSG_TIME_FORMAT)
                    | Some hour_int \<Rightarrow>
                        (case py_int minute_s of
                           None \<Rightarrow> Inl (ValueError MSG_TIME_FORMAT)
                         | Some minute_int \<Rightarrow>
                             if \<not> (0 \<le> hour_int \<and> hour_int \<le> 23
                                   \<and> 0 \<le> minute_int \<and> minute_int \<le> 59)
                             then Inl (ValueError MSG_TIME_RANGE)
                             else Inr (fmt_0wd 2 hour_int @ [0x3A] @ fmt_0wd 2 minute_int)))
               | _ \<Rightarrow> Inl (ValueError MSG_TIME_FORMAT)))"




section \<open>Dates and instants\<close>

text \<open>
  \<open>datetime.date\<close>: a calendar day of the proleptic Gregorian calendar, years 1 to 9999.
  \<open>datetime.datetime\<close>: the wall-clock reading in the bot's zone (Europe/Moscow), which
  is what \<open>_normalize_now\<close> hands to every function below.
\<close>

record date =
  year :: nat
  month :: nat
  day :: nat

record datetime =
  dt_date :: date
  hour :: nat
  minute :: nat
  second :: nat
  microsecond :: nat

definition is_leap :: "nat \<Rightarrow> bool" where
  "is_leap y = (y mod 4 = 0 \<and> (y mod 100 \<noteq> 0 \<or> y mod 400 = 0))"

definition days_in_month :: "nat \<Rightarrow> nat \<Rightarrow> nat" where
  "days_in_month y m =
     (if m = 2 then (if is_leap y then 29 else 28)
      else if m = 4 \<or> m = 6 \<or> m = 9 \<or> m = 11 then 30 else 31)"

definition valid_date :: "date \<Rightarrow> bool" where
  "valid_date d =
     (1 \<le> year d \<and> year d \<le> 9999 \<and> 1 \<le> month d \<and> month d \<le> 12
      \<and> 1 \<le> day d \<and> day d \<le> days_in_month (year d) (month d))"

definition valid_datetime :: "datetime \<Rightarrow> bool" where
  "valid_datetime m =
     (valid_date (dt_date m) \<and> hour m < 24 \<and> minute m < 60 \<and> second m < 60
      \<and> microsecond m < 1000000)"

text \<open>
  \<open>d + timedelta(days=n)\<close> for \<open>n \<ge> 0\<close>: the library adds \<open>n\<close> to the day's ordinal and
  raises \<open>OverflowError\<close> past 9999-12-31; counting days forward one by one gives the
  same day and the same failure.
\<close>

definition next_day :: "date \<Rightarrow> date" where
  "next_day d =
     (if day d < days_in_month (year d) (month d) then d\<lparr>day := day d + 1\<rparr>
      else if month d < 12 then d\<lparr>month := month d + 1, day := 1\<rparr>
      else d\<lparr>year := year d + 1, month := 1, day := 1\<rparr>)"

fun date_add_days :: "date \<Rightarrow> nat \<Rightarrow> exn + date" where
  "date_add_days d 0 = Inr d"
| "date_add_days d (Suc n) =
     (if year (next_day d) > 9999 then Inl OverflowError else date_add_days (next_day d) n)"

text \<open>
  \<open>date.isoformat()\<close> writes \<open>YYYY-MM-DD\<close>. \<open>date.fromisoformat\<close> reads that form: ten
  characters, ASCII digits around two hyphens, naming a day of the calendar (newer
  interpreters also read the basic and the week forms, which the program never writes).
  \<open>f"{d:%Y-%m-%d}"\<close> is the same text (for years below 1000 the C library decides
  whether \<open>%Y\<close> is padded; it is padded here).
\<close>

definition isoformat :: "date \<Rightarrow> ustr" where
  "isoformat d = zpad 4 (year d) @ [0x2D] @ zpad 2 (month d) @ [0x2D] @ zpad 2 (day d)"

definition ascii_digit :: "nat \<Rightarrow> nat option" where
  "ascii_digit c = (if 0x30 \<le> c \<and> c \<le> 0x39 then Some (c - 0x30) else None)"

fun ascii_number :: "ustr \<Rightarrow> nat option" where
  "ascii_number [] = None"
| "ascii_number cs =
     (if list_all (\<lambda>c. ascii_digit c \<noteq> None) cs
      then Some (digits_value (map (\<lambda>c. c - 0x30) cs)) else None)"

definition date_fromisoformat :: "ustr \<Rightarrow> date option" where
  "date_fromisoformat s =
     (case s of
        [y1, y2, y3, y4, h1, m1, m2, h2, d1, d2] \<Rightarrow>
          (if h1 \<noteq> 0x2D \<or> h2 \<noteq> 0x2D then None
           else (case (ascii_number [y1, y2, y3, y4], ascii_number [m1, m2],
                       ascii_number [d1, d2]) of
                   (Some y, Some m, Some dd) \<Rightarrow>
                     (let d = \<lparr>year = y, month = m, day = dd\<rparr>
                      in if valid_date d then Some d else None)
                 | _ \<Rightarrow> None))
      | _ \<Rightarrow> None)"

definition strftime_Ymd :: "date \<Rightarrow> ustr" where
  "strftime_Ymd d = isoformat d"

section \<open>HolidayResult\<close>

record HolidayResult =
  date :: date
  holidays :: "ustr list"
  source_url :: ustr
  fetched_at :: datetime
  error :: "ustr option"

definition has_data :: "HolidayResult \<Rightarrow> bool" where
  "has_data r = (holidays r \<noteq> [])"

section \<open>Choosing the holiday to headline\<close>

definition KW_ROSSIYA :: ustr where
  "KW_ROSSIYA = [1088, 1086, 1089, 1089, 1080, 1103]"

definition KW_RUSSIA :: ustr where
  "KW_RUSSIA = ascii ''russia''"

definition mentions_russia :: "ustr \<Rightarrow> bool" where
  "mentions_russia item =
     (str_contains KW_ROSSIYA (py_lower item) \<or> str_contains KW_RUSSIA (py_lower item))"

definition select_autopost_holiday :: "ustr list \<Rightarrow> ustr option" where
  "select_autopost_holiday hs =
     (case hs of
        [] \<Rightarrow> None
      | h # _ \<Rightarrow>
          (case filter (\<lambda>item. \<not> str_contains KW_ROSSIYA (py_lower item)
                               \<and> \<not> str_contains KW_RUSSIA (py_lower item)) hs of
             w # _ \<Rightarrow> Some w
           | [] \<Rightarrow> Some h))"

text \<open>The two names of the specification's example: "Den' Rossii" and "Pradnik morozhenogo".\<close>

definition DEN_ROSSII :: ustr where
  "DEN_ROSSII = [1044, 1077, 1085, 1100, 32, 1056, 1086, 1089, 1089, 1080, 1080]"

definition PRADNIK_MOROZHENOGO :: ustr where
  "PRADNIK_MOROZHENOGO =
     [1055, 1088, 1072, 1076, 1085, 1080, 1082, 32,
      1084, 1086, 1088, 1086, 1078, 1077, 1085, 1086, 1075, 1086]"

section \<open>The digest text\<close>

text \<open>
  The texts of \<open>bot/messages.py\<close>: "no holidays today", the heading "holidays for
  today:", the note "... and N more", the keywords by which a decoration is chosen, and
  the decorations (emoji, some of them two or more code points).
\<close>

definition DIGEST_NO_HOLIDAYS :: ustr where
  "DIGEST_NO_HOLIDAYS =
     [128467, 32, 1057, 1077, 1075, 1086, 1076, 1085, 1103, 32, 1085, 1077, 1090, 32,
      1087, 1088, 1072, 1079, 1076, 1085, 1080, 1082, 1086, 1074, 46]"

definition DIGEST_HEADER :: ustr where
  "DIGEST_HEADER =
     [127881, 32, 1055, 1088, 1072, 1079, 1076, 1085, 1080, 1082, 1080, 32, 1085, 1072,
      32, 1089, 1077, 1075, 1086, 1076, 1085, 1103, 58]"

definition DIGEST_MORE :: ustr where
  "DIGEST_MORE =
     [8230, 32, 1080, 32, 1077, 1097, 1105, 32]"

definition KW_ROZHDESTV :: ustr where
  "KW_ROZHDESTV =
     [1088, 1086, 1078, 1076, 1077, 1089, 1090, 1074]"

definition KW_PASKH :: ustr where
  "KW_PASKH =
     [1087, 1072, 1089, 1093]"

definition KW_NOV :: ustr where
  "KW_NOV =
     [1085, 1086, 1074]"

definition KW_YOLK :: ustr where
  "KW_YOLK =
     [1105, 1083, 1082]"

definition KW_DEN_ROZHDENIYA :: ustr where
  "KW_DEN_ROZHDENIYA =
     [1076, 1077, 1085, 1100, 32, 1088, 1086, 1078, 1076, 1077, 1085, 1080, 1103]"

definition KW_PAMYATI :: ustr where
  "KW_PAMYATI =
     [1087, 1072, 1084, 1103, 1090, 1080]"

definition KW_VSPOMIN :: ustr where
  "KW_VSPOMIN =
     [1074, 1089, 1087, 1086, 1084, 1080, 1085]"

definition KW_DEN :: ustr where
  "KW_DEN =
     [1076, 1077, 1085, 1100]"

definition KW_ROSSII :: ustr where
  "KW_ROSSII =
     [1088, 1086, 1089, 1089, 1080, 1080]"

definition KW_MIR :: ustr where
  "KW_MIR =
     [1084, 1080, 1088]"

definition KW_LYUB :: ustr where
  "KW_LYUB =
     [1083, 1102, 1073]"

definition KW_KOSM :: ustr where
  "KW_KOSM =
     [1082, 1086, 1089, 1084]"

definition KW_ARM :: ustr where
  "KW_ARM =
     [1072, 1088, 1084]"

definition KW_ZASHCHITNIK :: ustr where
  "KW_ZASHCHITNIK =
     [1079, 1072, 1097, 1080, 1090, 1085, 1080, 1082]"

definition KW_SEM :: ustr where
  "KW_SEM =
     [1089, 1077, 1084, 1100]"

definition EMOJI_CROSS :: ustr where
  "EMOJI_CROSS =
     [10013, 65039]"

definition EMOJI_TREE :: ustr where
  "EMOJI_TREE =
     [127876]"

definition EMOJI_PARTY :: ustr where
  "EMOJI_PARTY =
     [129395]"

definition EMOJI_CANDLE :: ustr where
  "EMOJI_CANDLE =
     [128367]"

definition EMOJI_FLAG_RU :: ustr where
  "EMOJI_FLAG_RU =
     [127479, 127482]"

definition EMOJI_DOVE :: ustr where
  "EMOJI_DOVE =
     [128330, 65039]"

definition EMOJI_HEARTS :: ustr where
  "EMOJI_HEARTS =
     [128158]"

definition EMOJI_ROCKET :: ustr where
  "EMOJI_ROCKET =
     [128640]"

definition EMOJI_SHIELD :: ustr where
  "EMOJI_SHIELD =
     [128737, 65039]"

definition EMOJI_FAMILY :: ustr where
  "EMOJI_FAMILY =
     [128104, 8205, 128105, 8205, 128103]"

definition EMOJI_SPARKLES :: ustr where
  "EMOJI_SPARKLES =
     [10024]"

definition select_holiday_emoji :: "ustr \<Rightarrow> ustr" where
  "select_holiday_emoji holiday_name =
     (let name_lower = py_lower holiday_name
      in if str_contains KW_ROZHDESTV name_lower \<or> str_contains KW_PASKH name_lower
           then EMOJI_CROSS
         else if str_contains KW_NOV name_lower \<or> str_contains KW_YOLK name_lower
           then EMOJI_TREE
         else if str_contains KW_DEN_ROZHDENIYA name_lower
                 \<or> str_contains (ascii ''birthday'') name_lower
           then EMOJI_PARTY
         else if str_contains KW_PAMYATI name_lower \<or> str_contains KW_VSPOMIN name_lower
           then EMOJI_CANDLE
         else if str_contains KW_DEN name_lower \<and> str_contains KW_ROSSII name_lower
           then EMOJI_FLAG_RU
         else if str_contains KW_MIR name_lower then EMOJI_DOVE
         else if str_contains KW_LYUB name_lower then EMOJI_HEARTS
         else if str_contains KW_KOSM name_lower then EMOJI_ROCKET
         else if str_contains KW_ARM name_lower \<or> str_contains KW_ZASHCHITNIK name_lower
           then EMOJI_SHIELD
         else if str_contains KW_SEM name_lower then EMOJI_FAMILY
         else EMOJI_SPARKLES)"

text \<open>\<open>xs[:limit]\<close>: a negative limit counts from the end.\<close>

definition py_slice_to :: "int \<Rightarrow> 'a list \<Rightarrow> 'a list" where
  "py_slice_to limit xs =
     (if limit \<ge> 0 then take (nat limit) xs else take (nat (int (length xs) + limit)) xs)"

definition format_holidays_digest :: "HolidayResult \<Rightarrow> int \<Rightarrow> ustr" where
  "format_holidays_digest result limit =
     (if holidays result = [] then DIGEST_NO_HOLIDAYS
      else
        (let visible = py_slice_to limit (holidays result);
             lines0 = [DIGEST_HEADER, []]
                        @ map (\<lambda>item. select_holiday_emoji item @ [0x20] @ item) visible;
             remaining = length (holidays result) - length visible;
             lines1 = (if remaining > 0 then lines0 @ [DIGEST_MORE @ dec_str remaining]
                       else lines0);
             lines2 = (case error result of
                         None \<Rightarrow> lines1
                       | Some e \<Rightarrow> if e = [] then lines1 else lines1 @ [[], e])
         in py_join [0x0A] lines2))"

section \<open>The page parser\<close>

text \<open>
  The markup is read by the library's \<open>HTMLParser\<close>, which calls the three handlers of
  \<open>_HolidayAnchorParser\<close> in document order. A page is represented by that sequence of
  calls: start tags with their attributes (a name may come without a value), end tags,
  and runs of text. Tag and attribute names arrive lower-cased; \<open><x/>\<close> arrives as a
  start tag followed by an end tag.
\<close>

type_synonym attrs = "(ustr \<times> ustr option) list"

datatype event = StartTag ustr attrs | EndTag ustr | Data ustr

type_synonym html = "event list"

record parser =
  target_div_id :: ustr
  inside_target :: bool
  target_depth :: int
  capture :: bool
  buffer :: "ustr list"
  parser_holidays :: "ustr list"

definition parser_init :: "ustr \<Rightarrow> parser" where
  "parser_init tid =
     \<lparr>target_div_id = tid, inside_target = False, target_depth = 0, capture = False,
      buffer = [], parser_holidays = []\<rparr>"

text \<open>\<open>dict(attrs).get(k)\<close>: of two attributes of one name the later one stays.\<close>

definition attr_get :: "attrs \<Rightarrow> ustr \<Rightarrow> ustr option option" where
  "attr_get as k = map_of (rev as) k"

definition HOLIDAY_HREF :: ustr where
  "HOLIDAY_HREF = ascii ''/holidays/0/0/''"

definition handle_starttag :: "ustr \<Rightarrow> attrs \<Rightarrow> parser \<Rightarrow> parser" where
  "handle_starttag tag as p =
     (if tag = ascii ''div'' then
        (if inside_target p then p\<lparr>target_depth := target_depth p + 1\<rparr>
         else if attr_get as (ascii ''id'') = Some (Some (target_div_id p))
           then p\<lparr>inside_target := True, target_depth := 1\<rparr>
         else p)
      else if \<not> inside_target p then p
      else if tag = ascii ''a'' then
        (let href = (case attr_get as (ascii ''href'') of Some (Some h) \<Rightarrow> h | _ \<Rightarrow> [])
         in if str_contains HOLIDAY_HREF href then p\<lparr>capture := True, buffer := []\<rparr>
            else p)
      else p)"

definition handle_endtag :: "ustr \<Rightarrow> parser \<Rightarrow> parser" where
  "handle_endtag tag p =
     (if inside_target p \<and> tag = ascii ''div'' then
        (let p' = p\<lparr>target_depth := target_depth p - 1\<rparr>
         in if target_depth p' \<le> 0 then p'\<lparr>inside_target := False, target_depth := 0\<rparr>
            else p')
      else if tag = ascii ''a'' \<and> capture p then
        (let text = py_strip (concat (buffer p));
             p' = (if text \<noteq> [] then p\<lparr>parser_holidays := parser_holidays p @ [text]\<rparr>
                   else p)
         in p'\<lparr>capture := False, buffer := []\<rparr>)
      else p)"

definition handle_data :: "ustr \<Rightarrow> parser \<Rightarrow> parser" where
  "handle_data d p = (if capture p then p\<lparr>buffer := buffer p @ [d]\<rparr> else p)"

fun handle :: "event \<Rightarrow> parser \<Rightarrow> parser" where
  "handle (StartTag tag as) p = handle_starttag tag as p"
| "handle (EndTag tag) p = handle_endtag tag p"
| "handle (Data d) p = handle_data d p"

definition run :: "html \<Rightarrow> parser \<Rightarrow> parser" where
  "run evs p = fold handle evs p"

definition feed :: "ustr \<Rightarrow> html \<Rightarrow> ustr list" where
  "feed tid evs = parser_holidays (run evs (parser_init tid))"

definition div_id :: "date \<Rightarrow> ustr" where
  "div_id target_date = ascii ''div_'' @ strftime_Ymd target_date"

definition parse_holidays :: "html \<Rightarrow> date \<Rightarrow> ustr list" where
  "parse_holidays page target_date = feed (div_id target_date) page"

section \<open>Documents and what the parser is to find in them\<close>


















section \<open>The cache document\<close>

text \<open>
  The document has the layout the program writes: the autopost time, the instant of the
  last update and the two day entries, each with a date text, a list of names, the
  instant of the fetch and the source URL. Every key may be missing (or null), which
  the program looks for with \<open>.get\<close>; a missing or empty entry is \<open>None\<close>. The ISO
  text of an instant is represented by what \<open>datetime.fromisoformat\<close> makes of it:
  the instant it denotes, or a text that is refused.
\<close>

datatype stamp = Stamp datetime | Unparsable ustr

record day_entry =
  entry_date :: "ustr option"
  entry_holidays :: "ustr list option"
  entry_fetched_at :: "stamp option"
  entry_source_url :: "ustr option"

record payload =
  autopost_time :: "ustr option"
  updated_at :: "stamp option"
  today :: "day_entry option"
  tomorrow :: "day_entry option"

definition CALEND_RU_URL :: ustr where
  "CALEND_RU_URL = ascii ''https://www.calend.ru/day/''"

text \<open>The annotations: "no holidays found for today", "could not refresh, showing
  what was saved earlier", "could not get the holiday data".\<close>

definition MSG_NOT_FOUND :: ustr where
  "MSG_NOT_FOUND =
     [1053, 1077, 32, 1085, 1072, 1081, 1076, 1077, 1085, 1086, 32, 1087, 1088, 1072,
      1079, 1076, 1085, 1080, 1082, 1086, 1074, 32, 1085, 1072, 32, 1089, 1077, 1075,
      1086, 1076, 1085, 1103, 46]"

definition MSG_STALE :: ustr where
  "MSG_STALE =
     [1053, 1077, 32, 1091, 1076, 1072, 1083, 1086, 1089, 1100, 32, 1086, 1073, 1085,
      1086, 1074, 1080, 1090, 1100, 32, 1076, 1072, 1085, 1085, 1099, 1077, 32, 1086,
      32, 1087, 1088, 1072, 1079, 1076, 1085, 1080, 1082, 1072, 1093, 44, 32, 1087,
      1086, 1082, 1072, 1079, 1072, 1085, 1099, 32, 1089, 1086, 1093, 1088, 1072, 1085,
      1105, 1085, 1085, 1099, 1077, 32, 1088, 1072, 1085, 1077, 1077, 46]"


section \<open>The module's state and its surroundings\<close>

text \<open>
  The module keeps the bound path, the document, the last served result and the
  registered wake-up event (its flag) in globals. Its surroundings are the file system
  and the clock. A file is absent, or present with what
  \<open>json.loads(path.read_text(encoding="utf-8"))\<close> does on it: one of three exceptions, a
  JSON value that is not an object, or a document. \<open>write_log\<close> records every call of
  \<open>write_text\<close>; the call fails with \<open>OSError\<close> where the path is not writable, and
  what was written is read back as the same document. The clock is read as the instant
  in the bot's zone (\<open>_normalize_now(None)\<close>) and as the machine's calendar day
  (\<open>date.today()\<close>); it stands still during one call.
\<close>

type_synonym path = ustr

datatype read_result =
    Raises_OSError
  | Raises_UnicodeDecodeError
  | Raises_JSONDecodeError
  | Loads_other
  | Loads payload

datatype file_state = Absent | Present read_result

record state =
  cache_file :: "path option"
  cache_payload :: "payload option"
  cached_result :: "HolidayResult option"
  autopost_event :: "bool option"
  fs :: "path \<Rightarrow> file_state"
  fs_writable :: "path \<Rightarrow> bool"
  write_log :: "(path \<times> payload) list"
  clock_now :: datetime
  clock_today :: date

definition MSG_NOT_INITIALIZED :: ustr where
  "MSG_NOT_INITIALIZED = ascii ''Holiday cache is not initialized''"

text \<open>\<open>_normalize_now\<close>: no value means the clock; a given value is already a reading in
  the bot's zone.\<close>

definition normalize_now :: "datetime option \<Rightarrow> state \<Rightarrow> datetime" where
  "normalize_now v s = (case v of None \<Rightarrow> clock_now s | Some m \<Rightarrow> m)"

definition format_datetime :: "datetime option \<Rightarrow> stamp option" where
  "format_datetime v = map_option Stamp v"

definition parse_datetime :: "stamp option \<Rightarrow> datetime option" where
  "parse_datetime v =
     (case v of
        None \<Rightarrow> None
      | Some (Unparsable _) \<Rightarrow> None
      | Some (Stamp m) \<Rightarrow> Some m)"

definition serialize_day :: "date \<Rightarrow> ustr list \<Rightarrow> datetime \<Rightarrow> day_entry" where
  "serialize_day target_date hs fetched =
     \<lparr>entry_date = Some (isoformat target_date), entry_holidays = Some hs,
      entry_fetched_at = format_datetime (Some fetched),
      entry_source_url = Some CALEND_RU_URL\<rparr>"

definition payload_entry_to_result :: "datetime \<Rightarrow> day_entry \<Rightarrow> HolidayResult option" where
  "payload_entry_to_result now entry =
     (case entry_date entry of
        None \<Rightarrow> None
      | Some raw_date \<Rightarrow>
          if raw_date = [] then None
          else (case date_fromisoformat raw_date of
                  None \<Rightarrow> None
                | Some parsed_date \<Rightarrow>
                    (let hs = (case entry_holidays entry of None \<Rightarrow> [] | Some xs \<Rightarrow> xs)
                     in Some \<lparr>date = parsed_date, holidays = hs,
                              source_url = (case entry_source_url entry of
                                              None \<Rightarrow> CALEND_RU_URL
                                            | Some u \<Rightarrow> if u = [] then CALEND_RU_URL else u),
                              fetched_at = (case parse_datetime (entry_fetched_at entry) of
                                              None \<Rightarrow> now
                                            | Some m \<Rightarrow> m),
                              error = (if hs = [] then Some MSG_NOT_FOUND else None)\<rparr>)))"

text \<open>\<open>_write_payload\<close>: best effort, an \<open>OSError\<close> is logged and swallowed.\<close>

definition write_payload :: "payload \<Rightarrow> path option \<Rightarrow> state \<Rightarrow> state" where
  "write_payload p cache_path s =
     (case (case cache_path of Some f \<Rightarrow> Some f | None \<Rightarrow> cache_file s) of
        None \<Rightarrow> s
      | Some target_path \<Rightarrow>
          (let s' = s\<lparr>write_log := write_log s @ [(target_path, p)]\<rparr>
           in if fs_writable s target_path
              then s'\<lparr>fs := (fs s)(target_path := Present (Loads p))\<rparr>
              else s'))"

definition default_payload :: "ustr \<Rightarrow> state \<Rightarrow> exn + payload" where
  "default_payload time s =
     (let moment = clock_now s
      in case date_add_days (dt_date moment) 1 of
           Inl e \<Rightarrow> Inl e
         | Inr next \<Rightarrow>
             Inr \<lparr>autopost_time = Some time, updated_at = format_datetime (Some moment),
                  today = Some (serialize_day (dt_date moment) [] moment),
                  tomorrow = Some (serialize_day next [] moment)\<rparr>)"

definition load_or_init_payload :: "path \<Rightarrow> ustr \<Rightarrow> state \<Rightarrow> exn + (payload \<times> state)" where
  "load_or_init_payload cache_path default_autopost_time s =
     (case (case fs s cache_path of
              Absent \<Rightarrow> default_payload default_autopost_time s
            | Present Raises_JSONDecodeError \<Rightarrow> default_payload default_autopost_time s
            | Present Raises_OSError \<Rightarrow> default_payload default_autopost_time s
            | Present Raises_UnicodeDecodeError \<Rightarrow> Inl UnicodeDecodeError
            | Present Loads_other \<Rightarrow> Inl AttributeError
            | Present (Loads p) \<Rightarrow> Inr p) of
        Inl e \<Rightarrow> Inl e
      | Inr p0 \<Rightarrow>
          (let p1 = (if autopost_time p0 = None \<or> autopost_time p0 = Some []
                     then p0\<lparr>autopost_time := Some default_autopost_time\<rparr> else p0);
               p2 = (if today p1 = None
                     then p1\<lparr>today := Some (serialize_day (clock_today s) [] (clock_now s))\<rparr>
                     else p1)
           in case (if tomorrow p2 = None
                    then (case date_add_days (clock_today s) 1 of
                            Inl e \<Rightarrow> Inl e
                          | Inr next \<Rightarrow>
                              Inr (p2\<lparr>tomorrow := Some (serialize_day next [] (clock_now s))\<rparr>))
                    else Inr p2) of
                Inl e \<Rightarrow> Inl e
              | Inr p3 \<Rightarrow> Inr (p3, write_payload p3 (Some cache_path) s)))"

definition ensure_payload :: "state \<Rightarrow> exn + (payload \<times> state)" where
  "ensure_payload s =
     (case cache_payload s of
        Some p \<Rightarrow> Inr (p, s)
      | None \<Rightarrow>
          (case cache_file s of
             None \<Rightarrow> Inl (RuntimeError MSG_NOT_INITIALIZED)
           | Some f \<Rightarrow>
               (case load_or_init_payload f (ascii ''00:00'') s of
                  Inl e \<Rightarrow> Inl e
                | Inr (p, s') \<Rightarrow> Inr (p, s'\<lparr>cache_payload := Some p\<rparr>))))"

definition cache_store :: "HolidayResult \<Rightarrow> state \<Rightarrow> state" where
  "cache_store r s = s\<lparr>cached_result := Some r\<rparr>"

text \<open>
  \<open>initialize_holiday_cache\<close> binds the path before it loads, so the binding stays when
  the load raises; the exception, if any, comes with the state.
\<close>

definition initialize_holiday_cache :: "path \<Rightarrow> ustr \<Rightarrow> state \<Rightarrow> exn option \<times> state" where
  "initialize_holiday_cache cache_path default_autopost_time s =
     (let s0 = s\<lparr>cache_file := Some cache_path\<rparr>
      in case load_or_init_payload cache_path default_autopost_time s0 of
           Inl e \<Rightarrow> (Some e, s0)
         | Inr (p, s1) \<Rightarrow>
             (let s2 = s1\<lparr>cache_payload := Some p\<rparr>
              in case (case today p of
                         None \<Rightarrow> None
                       | Some entry \<Rightarrow> payload_entry_to_result (clock_now s2) entry) of
                   None \<Rightarrow> (None, s2)
                 | Some r \<Rightarrow> (None, cache_store r s2)))"

definition register_autopost_event :: "bool \<Rightarrow> state \<Rightarrow> state" where
  "register_autopost_event flag s = s\<lparr>autopost_event := Some flag\<rparr>"

definition notify_autopost_update :: "state \<Rightarrow> state" where
  "notify_autopost_update s =
     (case autopost_event s of None \<Rightarrow> s | Some _ \<Rightarrow> s\<lparr>autopost_event := Some True\<rparr>)"




text \<open>
  \<open>refresh_holiday_cache\<close>, the body under the lock. \<open>download\<close> is what
  \<open>_download_html\<close> does in this call: it raises, or returns the page.
  \<open>refresh_dates\<close> is the part of the body that chooses the days of the two slots.
\<close>

definition refresh_dates :: "datetime \<Rightarrow> exn + (date \<times> date)" where
  "refresh_dates moment =
     (let current_date = dt_date moment;
          is_near_midnight = (hour moment = 23 \<and> minute moment \<ge> 45)
      in if is_near_midnight then
           (case date_add_days current_date 1 of
              Inl e \<Rightarrow> Inl e
            | Inr today_date \<Rightarrow>
                (case date_add_days current_date 2 of
                   Inl e \<Rightarrow> Inl e
                 | Inr tomorrow_date \<Rightarrow> Inr (today_date, tomorrow_date)))
         else
           (case date_add_days current_date 1 of
              Inl e \<Rightarrow> Inl e
            | Inr tomorrow_date \<Rightarrow> Inr (current_date, tomorrow_date)))"

definition refresh_holiday_cache ::
    "datetime option \<Rightarrow> exn + html \<Rightarrow> state \<Rightarrow> exn + (HolidayResult option \<times> state)" where
  "refresh_holiday_cache now download s =
     (let moment = normalize_now now s
      in case download of
           Inl e \<Rightarrow> Inl e
         | Inr page \<Rightarrow>
             (case refresh_dates moment of
                Inl e \<Rightarrow> Inl e
              | Inr (today_date, tomorrow_date) \<Rightarrow>
                  (let today_holidays = parse_holidays page today_date;
                       tomorrow_holidays = parse_holidays page tomorrow_date
                   in case ensure_payload s of
                        Inl e \<Rightarrow> Inl e
                      | Inr (p, s1) \<Rightarrow>
                          (let today_entry = serialize_day today_date today_holidays moment;
                               p' = p\<lparr>today := Some today_entry,
                                      tomorrow := Some (serialize_day tomorrow_date
                                                          tomorrow_holidays moment),
                                      updated_at := format_datetime (Some moment)\<rparr>;
                               s2 = write_payload p' None (s1\<lparr>cache_payload := Some p'\<rparr>);
                               result = payload_entry_to_result (clock_now s2) today_entry
                           in Inr (result, (case result of
                                              None \<Rightarrow> s2
                                            | Some r \<Rightarrow> cache_store r s2))))))"


section \<open>Concurrent callers of the refresh\<close>

text \<open>
  The bot runs its tasks on one event loop: a task runs until it awaits. A call of
  \<open>refresh_holiday_cache\<close> awaits twice: at \<open>async with _refresh_lock\<close>, where it may
  have to wait for the lock, and at \<open>await _download_html\<close>, which it reaches holding the
  lock and having sent the request. What follows the download (parsing, the update of
  the document, the write, the release of the lock) runs without a further await. So a
  caller is waiting for the lock, fetching, or finished, and a step of the system is a
  step of one caller: a waiting caller takes the free lock and starts its fetch; a
  fetching caller gets its download and runs the rest of the body, which is
  \<open>refresh_holiday_cache\<close> above on the shared state. A schedule names the caller that
  is resumed at each step; resuming a caller that waits for a held lock, or a finished
  one, changes nothing. Which of the waiting callers gets a free lock is left to the
  schedule (the library takes them in the order of their arrival).
\<close>

datatype pc = Waiting | Fetching | Finished

record caller =
  call_moment :: datetime
  call_download :: "exn + html"
  pc :: pc
  outcome :: "(exn + HolidayResult option) option"

record system =
  shared :: state
  locked :: bool
  callers :: "caller list"
  fetches :: nat

definition fire :: "nat \<Rightarrow> system \<Rightarrow> system" where
  "fire i S =
     (if i \<ge> length (callers S) then S
      else
        (let c = callers S ! i
         in case pc c of
              Waiting \<Rightarrow>
                if locked S then S
                else S\<lparr>locked := True, callers := (callers S)[i := c\<lparr>pc := Fetching\<rparr>],
                       fetches := fetches S + 1\<rparr>
            | Fetching \<Rightarrow>
                (case refresh_holiday_cache (Some (call_moment c)) (call_download c) (shared S) of
                   Inl e \<Rightarrow>
                     S\<lparr>locked := False,
                       callers := (callers S)[i := c\<lparr>pc := Finished,
                                                      outcome := Some (Inl e)\<rparr>]\<rparr>
                 | Inr (r, s') \<Rightarrow>
                     S\<lparr>shared := s', locked := False,
                       callers := (callers S)[i := c\<lparr>pc := Finished,
                                                      outcome := Some (Inr r)\<rparr>]\<rparr>)
            | Finished \<Rightarrow> S))"

definition exec :: "nat list \<Rightarrow> system \<Rightarrow> system" where
  "exec schedule S = fold fire schedule S"




section \<open>What a slot holds\<close>

text \<open>The day a slot's date text denotes, if any, and the names stored with it.\<close>

definition stored_date :: "day_entry option \<Rightarrow> date option" where
  "stored_date slot =
     (case slot of
        None \<Rightarrow> None
      | Some entry \<Rightarrow>
          (case entry_date entry of None \<Rightarrow> None | Some raw \<Rightarrow> date_fromisoformat raw))"


section \<open>Sample data\<close>

definition day_2024_01_07 :: date where
  "day_2024_01_07 = \<lparr>year = 2024, month = 1, day = 7\<rparr>"

definition day_2024_01_08 :: date where
  "day_2024_01_08 = \<lparr>year = 2024, month = 1, day = 8\<rparr>"

definition day_2024_01_09 :: date where
  "day_2024_01_09 = \<lparr>year = 2024, month = 1, day = 9\<rparr>"

definition noon :: datetime where
  "noon = \<lparr>dt_date = day_2024_01_07, hour = 12, minute = 0, second = 0, microsecond = 0\<rparr>"

definition late_evening :: datetime where
  "late_evening =
     \<lparr>dt_date = day_2024_01_07, hour = 23, minute = 50, second = 0, microsecond = 0\<rparr>"

definition sample_path :: path where
  "sample_path = ascii ''data/holidays.json''"

definition sample_payload :: payload where
  "sample_payload =
     \<lparr>autopost_time = Some (ascii ''08:30''), updated_at = Some (Stamp noon),
      today = Some (serialize_day day_2024_01_07 [DEN_ROSSII] noon),
      tomorrow = Some (serialize_day day_2024_01_08 [] noon)\<rparr>"

definition sample_state :: state where
  "sample_state =
     \<lparr>cache_file = Some sample_path, cache_payload = Some sample_payload,
      cached_result = None, autopost_event = Some False,
      fs = (\<lambda>_. Absent)(sample_path := Present (Loads sample_payload)),
      fs_writable = (\<lambda>_. True), write_log = [],
      clock_now = noon, clock_today = day_2024_01_07\<rparr>"


definition sample_result :: HolidayResult where
  "sample_result =
     \<lparr>date = day_2024_01_07, holidays = [DEN_ROSSII], source_url = CALEND_RU_URL,
      fetched_at = noon, error = Some MSG_STALE\<rparr>"




chapter \<open>Properties\<close>

section \<open>Decimal digits and ISO dates\<close>

lemma div10_lt: "(n::nat) < 10 * k \<Longrightarrow> n div 10 < k"
  by (simp add: less_mult_imp_div_less mult.commute)

lemma div10_ge: "10 * k \<le> (n::nat) \<Longrightarrow> k \<le> n div 10"
  by (simp add: less_eq_div_iff_mult_less_eq mult.commute)

lemma dec_str_step: "10 \<le> n \<Longrightarrow> dec_str n = dec_str (n div 10) @ [48 + n mod 10]"
  by (subst dec_str.simps) simp

lemma dec_str_lt10: "n < 10 \<Longrightarrow> dec_str n = [48 + n]"
  by (subst dec_str.simps) simp

lemma dec_str_lt100: "10 \<le> n \<Longrightarrow> n < 100 \<Longrightarrow> dec_str n = [48 + n div 10, 48 + n mod 10]"
proof -
  assume a: "10 \<le> n" "n < 100"
  have "n div 10 < 10" using a by (intro div10_lt) simp
  then have "dec_str (n div 10) = [48 + n div 10]" by (rule dec_str_lt10)
  then show ?thesis by (simp only: dec_str_step[OF a(1)] append_Cons append_Nil)
qed

lemma dec_str_lt1000: "100 \<le> n \<Longrightarrow> n < 1000 \<Longrightarrow>
   dec_str n = [48 + n div 10 div 10, 48 + n div 10 mod 10, 48 + n mod 10]"
proof -
  assume a: "100 \<le> n" "n < 1000"
  have b: "10 \<le> n" using a by simp
  have "n div 10 < 100" using a by (intro div10_lt) simp
  moreover have "10 \<le> n div 10" using a by (intro div10_ge) simp
  ultimately have "dec_str (n div 10) = [48 + n div 10 div 10, 48 + n div 10 mod 10]"
    by (intro dec_str_lt100)
  then show ?thesis by (simp only: dec_str_step[OF b] append_Cons append_Nil)
qed

lemma dec_str_lt10000: "1000 \<le> n \<Longrightarrow> n < 10000 \<Longrightarrow>
   dec_str n = [48 + n div 10 div 10 div 10, 48 + n div 10 div 10 mod 10,
                48 + n div 10 mod 10, 48 + n mod 10]"
proof -
  assume a: "1000 \<le> n" "n < 10000"
  have b: "10 \<le> n" using a by simp
  have "n div 10 < 1000" using a by (intro div10_lt) simp
  moreover have "100 \<le> n div 10" using a by (intro div10_ge) simp
  ultimately have "dec_str (n div 10)
      = [48 + n div 10 div 10 div 10, 48 + n div 10 div 10 mod 10, 48 + n div 10 mod 10]"
    by (intro dec_str_lt1000)
  then show ?thesis by (simp only: dec_str_step[OF b] append_Cons append_Nil)
qed

lemma replicate_small:
  "replicate (Suc 0) x = [x]" "replicate 2 x = [x, x]" "replicate 3 x = [x, x, x]"
  by (simp_all add: numeral_2_eq_2 numeral_3_eq_3)

lemma zpad2: "n < 100 \<Longrightarrow> zpad 2 n = [48 + n div 10, 48 + n mod 10]"
proof (cases "n < 10")
  case True
  then have ds: "dec_str n = [48 + n]" by (rule dec_str_lt10)
  from True have z: "n div 10 = 0" by simp
  from True show ?thesis unfolding zpad_def ds by (simp add: z replicate_small)
next
  case False
  assume "n < 100"
  with False have ds: "dec_str n = [48 + n div 10, 48 + n mod 10]" by (intro dec_str_lt100) simp_all
  show ?thesis unfolding zpad_def ds by simp
qed

lemma zpad4: "n < 10000 \<Longrightarrow>
   zpad 4 n = [48 + n div 10 div 10 div 10, 48 + n div 10 div 10 mod 10,
               48 + n div 10 mod 10, 48 + n mod 10]"
proof -
  assume a: "n < 10000"
  consider "n < 10" | "10 \<le> n \<and> n < 100" | "100 \<le> n \<and> n < 1000" | "1000 \<le> n" by linarith
  then show ?thesis
  proof cases
    case 1
    then have z: "n div 10 = 0" by simp
    from 1 have ds: "dec_str n = [48 + n]" by (rule dec_str_lt10)
    from 1 show ?thesis unfolding zpad_def ds by (simp add: z replicate_small)
  next
    case 2
    then have lt: "n div 10 < 10" by (intro div10_lt) simp
    then have z: "n div 10 div 10 = 0" by simp
    from 2 have ds: "dec_str n = [48 + n div 10, 48 + n mod 10]" by (intro dec_str_lt100) simp_all
    show ?thesis unfolding zpad_def ds by (simp add: z lt replicate_small)
  next
    case 3
    then have "n div 10 < 100" by (intro div10_lt) simp
    then have lt: "n div 10 div 10 < 10" by (intro div10_lt) simp
    then have z: "n div 10 div 10 div 10 = 0" by simp
    from 3 have ds: "dec_str n = [48 + n div 10 div 10, 48 + n div 10 mod 10, 48 + n mod 10]"
      by (intro dec_str_lt1000) simp_all
    show ?thesis unfolding zpad_def ds by (simp add: z lt replicate_small)
  next
    case 4
    with a have ds: "dec_str n = [48 + n div 10 div 10 div 10, 48 + n div 10 div 10 mod 10,
               48 + n div 10 mod 10, 48 + n mod 10]" by (intro dec_str_lt10000) simp_all
    show ?thesis unfolding zpad_def ds by simp
  qed
qed

lemma ascii_number2: "a < 10 \<Longrightarrow> b < 10 \<Longrightarrow> ascii_number [48 + a, 48 + b] = Some (10 * a + b)"
  by (simp add: ascii_digit_def digits_value_def)
lemma ascii_number4: "a < 10 \<Longrightarrow> b < 10 \<Longrightarrow> c < 10 \<Longrightarrow> d < 10 \<Longrightarrow>
   ascii_number [48 + a, 48 + b, 48 + c, 48 + d] = Some (10 * (10 * (10 * a + b) + c) + d)"
  by (simp add: ascii_digit_def digits_value_def)
lemma digits2: "10 * (n div 10) + n mod 10 = (n::nat)"
  by (rule mult_div_mod_eq)
lemma digits4: "10 * (10 * (10 * (n div 10 div 10 div 10) + n div 10 div 10 mod 10) + n div 10 mod 10) + n mod 10 = (n::nat)"
  by (simp only: mult_div_mod_eq)
lemma mod10_lt: "(n::nat) mod 10 < 10"
  by simp

lemma ascii_number_digits2: "n < 100 \<Longrightarrow> ascii_number [48 + n div 10, 48 + n mod 10] = Some n"
proof -
  assume "n < 100"
  then have "n div 10 < 10" by (intro div10_lt) simp
  then have "ascii_number [48 + n div 10, 48 + n mod 10] = Some (10 * (n div 10) + n mod 10)"
    using mod10_lt by (rule ascii_number2)
  then show ?thesis by (simp only: digits2)
qed
lemma ascii_number_digits4: "n < 10000 \<Longrightarrow>
   ascii_number [48 + n div 10 div 10 div 10, 48 + n div 10 div 10 mod 10,
                 48 + n div 10 mod 10, 48 + n mod 10] = Some n"
proof -
  assume "n < 10000"
  then have "n div 10 < 1000" by (intro div10_lt) simp
  then have "n div 10 div 10 < 100" by (intro div10_lt) simp
  then have "n div 10 div 10 div 10 < 10" by (intro div10_lt) simp
  then have "ascii_number [48 + n div 10 div 10 div 10, 48 + n div 10 div 10 mod 10,
                 48 + n div 10 mod 10, 48 + n mod 10]
     = Some (10 * (10 * (10 * (n div 10 div 10 div 10) + n div 10 div 10 mod 10) + n div 10 mod 10) + n mod 10)"
    using mod10_lt mod10_lt mod10_lt by (rule ascii_number4)
  then show ?thesis by (simp only: digits4)
qed
lemma days_in_month_le: "days_in_month y m \<le> 31"
  by (simp add: days_in_month_def)
lemma date_fromisoformat_digits:
  "date_fromisoformat [y1, y2, y3, y4, 0x2D, m1, m2, 0x2D, d1, d2] =
     (case (ascii_number [y1, y2, y3, y4], ascii_number [m1, m2], ascii_number [d1, d2]) of
                   (Some y, Some m, Some dd) \<Rightarrow>
                     (let d = \<lparr>year = y, month = m, day = dd\<rparr>
                      in if valid_date d then Some d else None)
                 | _ \<Rightarrow> None)"
  by (simp add: date_fromisoformat_def del: ascii_number.simps)
lemma fromisoformat_isoformat: "valid_date d \<Longrightarrow> date_fromisoformat (isoformat d) = Some d"
proof -
  assume v: "valid_date d"
  obtain y m dd where d: "d = \<lparr>year = y, month = m, day = dd\<rparr>" by (cases d) simp
  have y: "y < 10000" and m: "m < 100" and dd: "dd < 100"
    using v days_in_month_le[of y m] by (auto simp: valid_date_def d)
  have iso: "isoformat d =
      [48 + y div 10 div 10 div 10, 48 + y div 10 div 10 mod 10, 48 + y div 10 mod 10, 48 + y mod 10,
       0x2D, 48 + m div 10, 48 + m mod 10, 0x2D, 48 + dd div 10, 48 + dd mod 10]"
    unfolding isoformat_def d by (simp add: zpad4[OF y] zpad2[OF m] zpad2[OF dd])
  show ?thesis
    unfolding iso date_fromisoformat_digits
    using v by (simp add: ascii_number_digits4[OF y] ascii_number_digits2[OF m] ascii_number_digits2[OF dd] d
        del: ascii_number.simps)
qed

lemma valid_next_day: "valid_date d \<Longrightarrow> year (next_day d) \<le> 9999 \<Longrightarrow> valid_date (next_day d)"
  by (auto simp add: valid_date_def next_day_def days_in_month_def)

lemma date_add_days_valid: "valid_date d \<Longrightarrow> date_add_days d n = Inr d' \<Longrightarrow> valid_date d'"
proof (induction n arbitrary: d)
  case 0
  then show ?case by simp
next
  case (Suc n)
  from Suc.prems(2) have le: "year (next_day d) \<le> 9999"
    and r: "date_add_days (next_day d) n = Inr d'"
    by (auto split: if_splits)
  from valid_next_day[OF Suc.prems(1) le] r show ?case by (rule Suc.IH)
qed

section \<open>The headline choice\<close>

lemma select_autopost_holiday_empty: "select_autopost_holiday [] = None"
  by (simp add: select_autopost_holiday_def)

lemma select_autopost_holiday_rule:
  "select_autopost_holiday hs =
     (case filter (\<lambda>h. \<not> mentions_russia h) hs of
        w # _ \<Rightarrow> Some w
      | [] \<Rightarrow> (case hs of [] \<Rightarrow> None | h # _ \<Rightarrow> Some h))"
proof -
  have "(\<lambda>item. \<not> str_contains KW_ROSSIYA (py_lower item)
                  \<and> \<not> str_contains KW_RUSSIA (py_lower item))
        = (\<lambda>h. \<not> mentions_russia h)"
    by (simp add: mentions_russia_def)
  then show ?thesis
    by (simp add: select_autopost_holiday_def split: list.splits)
qed

text \<open>
  Claim C2. \<open>select_autopost_holiday\<close> is meant to pass over the holidays that mention
  Russia and to headline the first other one, so that the list "Den' Rossii",
  "Pradnik morozhenogo" yields the second name. The keyword the code looks for is the
  nominative "rossiya"; the lower-cased "den' rossii" (genitive) does not contain it, the
  filter keeps the name, and the code headlines "Den' Rossii".
\<close>

theorem select_autopost_holiday_keeps_den_rossii:
  "select_autopost_holiday [DEN_ROSSII, PRADNIK_MOROZHENOGO] = Some DEN_ROSSII
   \<and> \<not> mentions_russia DEN_ROSSII"
  by (simp add: select_autopost_holiday_def mentions_russia_def DEN_ROSSII_def
      PRADNIK_MOROZHENOGO_def KW_ROSSIYA_def KW_RUSSIA_def ascii_def py_lower_def lower_cp_def)

section \<open>The digest of an empty result\<close>

lemma py_join_snoc2:
  "xs \<noteq> [] \<Longrightarrow> py_join sep (xs @ [a, b]) = py_join sep xs @ sep @ a @ sep @ b"
proof (induction sep xs rule: py_join.induct)
  case (1 sep)
  then show ?case by simp
next
  case (2 sep x)
  then show ?case by simp
next
  case (3 sep x y ys)
  then show ?case by simp
qed

text \<open>
  Claim C10. A result without holidays is rendered as the fixed "no holidays today"
  text, whatever its annotation. The annotation is appended, after an empty line, only
  to the digest of a result that has holidays: that digest is the digest of the same
  result without annotation, followed by two line feeds and the annotation.
\<close>

theorem format_holidays_digest_annotation:
  "(holidays r = [] \<longrightarrow> format_holidays_digest r limit = DIGEST_NO_HOLIDAYS)
   \<and> (holidays r \<noteq> [] \<and> error r = Some e \<and> e \<noteq> [] \<longrightarrow>
        format_holidays_digest r limit
          = format_holidays_digest (r\<lparr>error := None\<rparr>) limit @ [0x0A] @ [0x0A] @ e)
   \<and> (holidays r \<noteq> [] \<and> (error r = None \<or> error r = Some []) \<longrightarrow>
        format_holidays_digest r limit = format_holidays_digest (r\<lparr>error := None\<rparr>) limit)"
proof (intro conjI impI)
  assume "holidays r = []"
  then show "format_holidays_digest r limit = DIGEST_NO_HOLIDAYS"
    by (simp add: format_holidays_digest_def)
next
  assume "holidays r \<noteq> [] \<and> error r = Some e \<and> e \<noteq> []"
  then show "format_holidays_digest r limit
          = format_holidays_digest (r\<lparr>error := None\<rparr>) limit @ [0x0A] @ [0x0A] @ e"
    by (simp add: format_holidays_digest_def Let_def py_join_snoc2)
next
  assume "holidays r \<noteq> [] \<and> (error r = None \<or> error r = Some [])"
  then show "format_holidays_digest r limit
          = format_holidays_digest (r\<lparr>error := None\<rparr>) limit"
    by (auto simp add: format_holidays_digest_def Let_def)
qed

theorem format_holidays_digest_annotation_witness:
  "format_holidays_digest (sample_result\<lparr>holidays := []\<rparr>) 10 = DIGEST_NO_HOLIDAYS
   \<and> holidays sample_result \<noteq> [] \<and> error sample_result = Some MSG_STALE \<and> MSG_STALE \<noteq> []
   \<and> format_holidays_digest sample_result 10
       = format_holidays_digest (sample_result\<lparr>error := None\<rparr>) 10 @ [0x0A] @ [0x0A] @ MSG_STALE
   \<and> format_holidays_digest (sample_result\<lparr>error := Some []\<rparr>) 10
       = format_holidays_digest (sample_result\<lparr>error := None\<rparr>) 10"
  using format_holidays_digest_annotation [of "sample_result\<lparr>holidays := []\<rparr>" 10 MSG_STALE]
    format_holidays_digest_annotation [of sample_result 10 MSG_STALE]
    format_holidays_digest_annotation [of "sample_result\<lparr>error := Some []\<rparr>" 10 MSG_STALE]
  by (simp add: sample_result_def MSG_STALE_def)

section \<open>The slot lookup\<close>







lemma ensure_payload_loaded: "cache_payload s = Some p \<Longrightarrow> ensure_payload s = Inr (p, s)"
  by (simp add: ensure_payload_def)



lemma valid_sample_days:
  "valid_date day_2024_01_07" "valid_date day_2024_01_08" "valid_date day_2024_01_09"
  by (simp_all add: valid_date_def days_in_month_def day_2024_01_07_def day_2024_01_08_def
      day_2024_01_09_def)

lemma stored_date_serialize_day:
  "valid_date d \<Longrightarrow> stored_date (Some (serialize_day d hs m)) = Some d"
  by (simp add: stored_date_def serialize_day_def fromisoformat_isoformat)





section \<open>The day boundary of a refresh\<close>

lemma write_payload_globals [simp]:
  "cache_payload (write_payload p cp s) = cache_payload s"
  "cache_file (write_payload p cp s) = cache_file s"
  "cached_result (write_payload p cp s) = cached_result s"
  "autopost_event (write_payload p cp s) = autopost_event s"
  "clock_now (write_payload p cp s) = clock_now s"
  "clock_today (write_payload p cp s) = clock_today s"
  "fs_writable (write_payload p cp s) = fs_writable s"
  by (simp_all add: write_payload_def Let_def split: option.splits)

lemma write_payload_log:
  "write_log (write_payload p cp s) =
     (case (case cp of Some f \<Rightarrow> Some f | None \<Rightarrow> cache_file s) of
        None \<Rightarrow> write_log s | Some f \<Rightarrow> write_log s @ [(f, p)])"
  by (simp add: write_payload_def Let_def split: option.splits)

lemma CALEND_RU_URL_nonempty: "CALEND_RU_URL \<noteq> []"
  by (simp add: CALEND_RU_URL_def ascii_def)

lemma payload_entry_to_result_serialize_day:
  "valid_date d \<Longrightarrow>
     payload_entry_to_result now (serialize_day d hs m) =
       Some \<lparr>date = d, holidays = hs, source_url = CALEND_RU_URL, fetched_at = m,
             error = (if hs = [] then Some MSG_NOT_FOUND else None)\<rparr>"
proof -
  assume v: "valid_date d"
  have ne: "isoformat d \<noteq> []" by (simp add: isoformat_def)
  show ?thesis
    by (simp add: payload_entry_to_result_def serialize_day_def fromisoformat_isoformat[OF v] ne
        format_datetime_def parse_datetime_def CALEND_RU_URL_nonempty Let_def)
qed

lemma near_midnight_iff:
  "hour m < 24 \<Longrightarrow> minute m < 60 \<Longrightarrow>
     (hour m = 23 \<and> minute m \<ge> 45) = (\<not> hour m * 60 + minute m < 23 * 60 + 45)"
  by auto

lemma refresh_dates_cases:
  assumes "valid_datetime m" and "refresh_dates m = Inr (td, tm)"
  shows "valid_date td \<and> valid_date tm
     \<and> (hour m * 60 + minute m < 23 * 60 + 45 \<longrightarrow>
           td = dt_date m \<and> date_add_days (dt_date m) 1 = Inr tm)
     \<and> (\<not> hour m * 60 + minute m < 23 * 60 + 45 \<longrightarrow>
           date_add_days (dt_date m) 1 = Inr td \<and> date_add_days (dt_date m) 2 = Inr tm)"
proof -
  from assms(1) have v: "valid_date (dt_date m)" and h: "hour m < 24" and mi: "minute m < 60"
    by (simp_all add: valid_datetime_def)
  note nm = near_midnight_iff[OF h mi]
  show ?thesis
  proof (cases "hour m * 60 + minute m < 23 * 60 + 45")
    case True
    with nm have n: "\<not> (hour m = 23 \<and> minute m \<ge> 45)" by blast
    from assms(2) n have "td = dt_date m" "date_add_days (dt_date m) 1 = Inr tm"
      by (auto simp add: refresh_dates_def Let_def split: sum.splits simp del: date_add_days.simps)
    with True v date_add_days_valid[OF v] show ?thesis by blast
  next
    case False
    with nm have n: "hour m = 23 \<and> minute m \<ge> 45" by blast
    from assms(2) n have "date_add_days (dt_date m) 1 = Inr td" "date_add_days (dt_date m) 2 = Inr tm"
      by (auto simp add: refresh_dates_def Let_def split: sum.splits simp del: date_add_days.simps)
    with False date_add_days_valid[OF v] show ?thesis by blast
  qed
qed

lemma ensure_payload_Inr:
  "ensure_payload s = Inr (p, s1) \<Longrightarrow> cache_payload s1 = Some p"
  by (auto simp add: ensure_payload_def split: option.splits sum.splits)

lemma refresh_holiday_cache_Inr:
  assumes "refresh_holiday_cache now download s = Inr (res, s')"
  shows "\<exists>page td tm p s1.
     download = Inr page \<and> refresh_dates (normalize_now now s) = Inr (td, tm)
     \<and> ensure_payload s = Inr (p, s1)
     \<and> cache_payload s' =
         Some (p\<lparr>today := Some (serialize_day td (parse_holidays page td) (normalize_now now s)),
                 tomorrow := Some (serialize_day tm (parse_holidays page tm) (normalize_now now s)),
                 updated_at := format_datetime (Some (normalize_now now s))\<rparr>)
     \<and> res = payload_entry_to_result (clock_now s1)
               (serialize_day td (parse_holidays page td) (normalize_now now s))"
  using assms
  by (auto simp add: refresh_holiday_cache_def Let_def cache_store_def
      split: sum.splits prod.splits option.splits)

text \<open>
  Claim C3. Let \<open>m\<close> be the moment of a refresh, a reading of the clock in the bot's
  zone. When the refresh returns, the document in memory holds in its "today" and
  "tomorrow" slots the ISO texts of two days, and the returned result is for the first
  of them: before 23:45 these are the day of \<open>m\<close> and the day after; from 23:45 on, the
  day after and the second day after.
\<close>

theorem refresh_day_boundary:
  assumes "valid_datetime (normalize_now now s)"
    and "refresh_holiday_cache now download s = Inr (res, s')"
  shows "\<exists>p' today_date tomorrow_date r.
     cache_payload s' = Some p' \<and> res = Some r \<and> date r = today_date
     \<and> entry_date (the (today p')) = Some (isoformat today_date)
     \<and> entry_date (the (tomorrow p')) = Some (isoformat tomorrow_date)
     \<and> stored_date (today p') = Some today_date
     \<and> stored_date (tomorrow p') = Some tomorrow_date
     \<and> (hour (normalize_now now s) * 60 + minute (normalize_now now s) < 23 * 60 + 45 \<longrightarrow>
           today_date = dt_date (normalize_now now s)
           \<and> date_add_days (dt_date (normalize_now now s)) 1 = Inr tomorrow_date)
     \<and> (\<not> hour (normalize_now now s) * 60 + minute (normalize_now now s) < 23 * 60 + 45 \<longrightarrow>
           date_add_days (dt_date (normalize_now now s)) 1 = Inr today_date
           \<and> date_add_days (dt_date (normalize_now now s)) 2 = Inr tomorrow_date)"
proof -
  let ?m = "normalize_now now s"
  from refresh_holiday_cache_Inr[OF assms(2)] show ?thesis
  proof (elim exE conjE)
    fix page td tm and p :: payload and s1 :: state
    let ?p' = "p\<lparr>today := Some (serialize_day td (parse_holidays page td) ?m),
                   tomorrow := Some (serialize_day tm (parse_holidays page tm) ?m),
                   updated_at := format_datetime (Some ?m)\<rparr>"
    let ?r = "\<lparr>date = td, holidays = parse_holidays page td, source_url = CALEND_RU_URL,
               fetched_at = ?m,
               error = (if parse_holidays page td = [] then Some MSG_NOT_FOUND else None)\<rparr>"
    assume "download = Inr page" and d: "refresh_dates ?m = Inr (td, tm)"
      and "ensure_payload s = Inr (p, s1)" and cp: "cache_payload s' = Some ?p'"
      and r: "res = payload_entry_to_result (clock_now s1)
                      (serialize_day td (parse_holidays page td) ?m)"
    from refresh_dates_cases[OF assms(1) d] have vt: "valid_date td" and vm: "valid_date tm"
      and c: "hour ?m * 60 + minute ?m < 23 * 60 + 45 \<longrightarrow>
                td = dt_date ?m \<and> date_add_days (dt_date ?m) 1 = Inr tm"
        "\<not> hour ?m * 60 + minute ?m < 23 * 60 + 45 \<longrightarrow>
                date_add_days (dt_date ?m) 1 = Inr td \<and> date_add_days (dt_date ?m) 2 = Inr tm"
      by blast+
    have 1: "res = Some ?r" unfolding r by (rule payload_entry_to_result_serialize_day[OF vt])
    have 2: "entry_date (the (today ?p')) = Some (isoformat td)"
      "entry_date (the (tomorrow ?p')) = Some (isoformat tm)"
      by (simp_all add: serialize_day_def)
    have 3: "stored_date (today ?p') = Some td" "stored_date (tomorrow ?p') = Some tm"
      by (simp_all add: stored_date_serialize_day vt vm)
    have 4: "date ?r = td" by simp
    show ?thesis
      by (intro exI[of _ ?p'] exI[of _ td] exI[of _ tm] exI[of _ ?r] conjI cp 1 2 3 4 c)
  qed
qed

lemma noon_valid: "valid_datetime noon" "valid_datetime late_evening"
  by (simp_all add: valid_datetime_def noon_def late_evening_def valid_sample_days)

lemma add_days_sample:
  "date_add_days day_2024_01_07 1 = Inr day_2024_01_08"
  "date_add_days day_2024_01_07 (Suc 0) = Inr day_2024_01_08"
  "date_add_days day_2024_01_07 2 = Inr day_2024_01_09"
  by (simp_all add: numeral_2_eq_2 next_day_def days_in_month_def day_2024_01_07_def
      day_2024_01_08_def day_2024_01_09_def)

lemma refresh_dates_sample:
  "refresh_dates noon = Inr (day_2024_01_07, day_2024_01_08)"
  "refresh_dates late_evening = Inr (day_2024_01_08, day_2024_01_09)"
  by (simp_all add: refresh_dates_def Let_def noon_def late_evening_def add_days_sample
      del: date_add_days.simps)

lemma ensure_payload_sample: "ensure_payload sample_state = Inr (sample_payload, sample_state)"
  by (rule ensure_payload_loaded) (simp add: sample_state_def)

lemma refresh_sample_succeeds:
  "\<exists>res s'. refresh_holiday_cache (Some noon) download sample_state = Inr (res, s')
     \<or> (\<exists>e. download = Inl e)"
  "\<exists>res s'. refresh_holiday_cache (Some late_evening) download sample_state = Inr (res, s')
     \<or> (\<exists>e. download = Inl e)"
  by (cases download; simp add: refresh_holiday_cache_def Let_def normalize_now_def
      refresh_dates_sample ensure_payload_sample)+

theorem refresh_day_boundary_witness:
  "valid_datetime noon \<and> valid_datetime late_evening
   \<and> (\<exists>res s' p'. refresh_holiday_cache (Some noon) (Inr []) sample_state = Inr (res, s')
         \<and> cache_payload s' = Some p'
         \<and> stored_date (today p') = Some day_2024_01_07
         \<and> stored_date (tomorrow p') = Some day_2024_01_08)
   \<and> (\<exists>res s' p'. refresh_holiday_cache (Some late_evening) (Inr []) sample_state = Inr (res, s')
         \<and> cache_payload s' = Some p'
         \<and> stored_date (today p') = Some day_2024_01_08
         \<and> stored_date (tomorrow p') = Some day_2024_01_09)"
proof -
  have n: "normalize_now (Some noon) sample_state = noon"
    "normalize_now (Some late_evening) sample_state = late_evening"
    by (simp_all add: normalize_now_def)
  have f: "hour noon * 60 + minute noon < 23 * 60 + 45"
    "\<not> hour late_evening * 60 + minute late_evening < 23 * 60 + 45"
    "dt_date noon = day_2024_01_07" "dt_date late_evening = day_2024_01_07"
    by (simp_all add: noon_def late_evening_def)
  from refresh_sample_succeeds(1)[of "Inr []"] obtain res s' where
    a: "refresh_holiday_cache (Some noon) (Inr []) sample_state = Inr (res, s')" by auto
  from refresh_sample_succeeds(2)[of "Inr []"] obtain res2 s2 where
    b: "refresh_holiday_cache (Some late_evening) (Inr []) sample_state = Inr (res2, s2)" by auto
  have va: "valid_datetime (normalize_now (Some noon) sample_state)"
    and vb: "valid_datetime (normalize_now (Some late_evening) sample_state)"
    by (simp_all add: n noon_valid)
  from refresh_day_boundary[OF va a] f have A: "\<exists>p'. cache_payload s' = Some p'
         \<and> stored_date (today p') = Some day_2024_01_07
         \<and> stored_date (tomorrow p') = Some day_2024_01_08"
    by (auto simp add: n add_days_sample simp del: date_add_days.simps)
  from refresh_day_boundary[OF vb b] f have B: "\<exists>p'. cache_payload s2 = Some p'
         \<and> stored_date (today p') = Some day_2024_01_08
         \<and> stored_date (tomorrow p') = Some day_2024_01_09"
    by (auto simp add: n add_days_sample simp del: date_add_days.simps)
  from a A b B noon_valid show ?thesis by blast
qed

section \<open>Validation of the autopost time\<close>













lemma normalize_time_Inl:
  "normalize_time v = Inl e \<Longrightarrow> e = ValueError MSG_TIME_FORMAT \<or> e = ValueError MSG_TIME_RANGE"
  by (auto simp add: normalize_time_def Let_def split: if_splits list.splits option.splits)






lemma digit_run_chars:
  "digit_run body = Some ds \<Longrightarrow> c \<in> set body \<Longrightarrow> digit_val c \<noteq> None \<or> c = 0x5F"
proof (induction body arbitrary: ds rule: digit_run.induct)
  case 1
  then show ?case by simp
next
  case (2 c0)
  then show ?case by auto
next
  case (3 c0 c1 cs)
  then show ?case by (auto split: option.splits if_splits)
qed

lemma py_int_parts:
  assumes "py_int field = Some n"
  shows "\<exists>lead sign body trail ds.
      field = lead @ sign @ body @ trail
      \<and> list_all int_space lead \<and> set sign \<subseteq> {0x2B, 0x2D}
      \<and> digit_run body = Some ds \<and> list_all int_space trail"
proof -
  let ?t = "dropWhile int_space field"
  let ?u = "(case ?t of c # cs \<Rightarrow> if c = 0x2B \<or> c = 0x2D then cs else ?t | [] \<Rightarrow> ?t)"
  let ?body = "takeWhile (\<lambda>c. \<not> int_space c) ?u"
  let ?trail = "dropWhile (\<lambda>c. \<not> int_space c) ?u"
  from assms have tr: "list_all int_space ?trail"
    by (simp add: py_int_def Let_def split: if_splits)
  from assms tr obtain ds where dr: "digit_run ?body = Some ds"
    by (cases "digit_run ?body") (simp_all add: py_int_def Let_def)
  have f: "field = takeWhile int_space field @ ?t" by simp
  have l: "list_all int_space (takeWhile int_space field)"
    by (simp add: list_all_iff) (meson set_takeWhileD)
  obtain sign where sg: "?t = sign @ ?u" "set sign \<subseteq> {0x2B, 0x2D}"
  proof (cases ?t)
    case Nil
    have "?t = [] @ ?u" unfolding Nil by simp
    then show ?thesis using that[of "[]"] by simp
  next
    case (Cons c cs)
    show ?thesis
    proof (cases "c = 0x2B \<or> c = 0x2D")
      case True
      with Cons have "?t = [c] @ ?u" by simp
      with True show ?thesis using that[of "[c]"] by auto
    next
      case False
      with Cons have "?t = [] @ ?u" by simp
      then show ?thesis using that[of "[]"] by simp
    qed
  qed
  have u: "?u = ?body @ ?trail" by simp
  have "field = takeWhile int_space field @ sign @ ?body @ ?trail"
    using f sg(1) u by metis
  with l sg(2) dr tr show ?thesis by blast
qed

lemma py_int_chars:
  assumes "py_int field = Some n" and "c \<in> set field"
  shows "digit_val c \<noteq> None \<or> c = 0x5F \<or> c = 0x2B \<or> c = 0x2D \<or> int_space c"
proof -
  from py_int_parts[OF assms(1)] obtain lead sign body trail ds where
    p: "field = lead @ sign @ body @ trail" "list_all int_space lead"
    "set sign \<subseteq> {0x2B, 0x2D}" "digit_run body = Some ds" "list_all int_space trail"
    by blast
  from assms(2) p(1) consider "c \<in> set lead" | "c \<in> set sign" | "c \<in> set body"
    | "c \<in> set trail" by auto
  then show ?thesis
  proof cases
    case 1
    with p(2) show ?thesis by (simp add: list_all_iff)
  next
    case 2
    with p(3) show ?thesis by auto
  next
    case 3
    with p(4) digit_run_chars show ?thesis by blast
  next
    case 4
    with p(5) show ?thesis by (simp add: list_all_iff)
  qed
qed





section \<open>Changing the autopost time\<close>

lemma notify_autopost_update_globals [simp]:
  "cache_payload (notify_autopost_update s) = cache_payload s"
  "cache_file (notify_autopost_update s) = cache_file s"
  "cached_result (notify_autopost_update s) = cached_result s"
  "write_log (notify_autopost_update s) = write_log s"
  "fs (notify_autopost_update s) = fs s"
  by (simp_all add: notify_autopost_update_def split: option.splits)





section \<open>Initialization of the cache\<close>

lemma load_or_init_payload_Inr:
  assumes "load_or_init_payload f dflt s = Inr (p, s')"
  shows "autopost_time p \<noteq> None \<and> (dflt \<noteq> [] \<longrightarrow> autopost_time p \<noteq> Some [])
     \<and> today p \<noteq> None \<and> tomorrow p \<noteq> None
     \<and> s' = write_payload p (Some f) s"
  using assms
  by (auto simp add: load_or_init_payload_def Let_def
      split: sum.splits if_splits file_state.splits read_result.splits)

lemma initialize_holiday_cache_materialized:
  assumes "initialize_holiday_cache f dflt s = (None, s')"
  shows "\<exists>p. cache_payload s' = Some p \<and> cache_file s' = Some f
     \<and> autopost_time p \<noteq> None \<and> today p \<noteq> None \<and> tomorrow p \<noteq> None
     \<and> write_log s' = write_log s @ [(f, p)]"
proof -
  let ?s0 = "s\<lparr>cache_file := Some f\<rparr>"
  from assms obtain p s1 where l: "load_or_init_payload f dflt ?s0 = Inr (p, s1)"
    by (auto simp add: initialize_holiday_cache_def Let_def split: sum.splits)
  from load_or_init_payload_Inr[OF l] have s1: "s1 = write_payload p (Some f) ?s0"
    and pr: "autopost_time p \<noteq> None" "today p \<noteq> None" "tomorrow p \<noteq> None" by simp_all
  from assms l have "cache_payload s' = Some p" "cache_file s' = cache_file s1"
    "write_log s' = write_log s1"
    by (auto simp add: initialize_holiday_cache_def Let_def cache_store_def split: option.splits)
  with s1 pr show ?thesis by (simp add: write_payload_log)
qed

lemma initialize_holiday_cache_recreates:
  assumes "fs s f = Absent \<or> fs s f = Present Raises_OSError
           \<or> fs s f = Present Raises_JSONDecodeError"
    and "date_add_days (dt_date (clock_now s)) 1 = Inr next"
  shows "\<exists>s'. initialize_holiday_cache f dflt s = (None, s')
     \<and> cache_payload s' =
         Some \<lparr>autopost_time = Some dflt, updated_at = Some (Stamp (clock_now s)),
               today = Some (serialize_day (dt_date (clock_now s)) [] (clock_now s)),
               tomorrow = Some (serialize_day next [] (clock_now s))\<rparr>
     \<and> write_log s' = write_log s @ [(f, the (cache_payload s'))]"
  using assms
  by (auto simp add: initialize_holiday_cache_def load_or_init_payload_def default_payload_def
      Let_def cache_store_def write_payload_log format_datetime_def
      simp del: date_add_days.simps split: option.splits)

text \<open>
  Claim C8. Initialization is meant to start afresh on a cache file that is absent,
  unreadable or corrupt. It does so when the file is absent, when reading raises
  \<open>OSError\<close> and when the text is not JSON. A file whose bytes are not UTF-8 makes
  \<open>read_text\<close> raise \<open>UnicodeDecodeError\<close>, which the \<open>except\<close> clause does not list, and
  a file holding a JSON value that is not an object makes \<open>payload.get\<close> raise
  \<open>AttributeError\<close>: in both cases the exception leaves \<open>initialize_holiday_cache\<close>.
\<close>

theorem initialize_holiday_cache_corrupt_file_raises:
  "fst (initialize_holiday_cache f dflt (s\<lparr>fs := (fs s)(f := Present Raises_UnicodeDecodeError)\<rparr>))
     = Some UnicodeDecodeError
   \<and> fst (initialize_holiday_cache f dflt (s\<lparr>fs := (fs s)(f := Present Loads_other)\<rparr>))
     = Some AttributeError"
  by (simp add: initialize_holiday_cache_def load_or_init_payload_def Let_def)

section \<open>The fallback chain of the query\<close>










section \<open>The parser on well-formed pages\<close>

lemma run_Nil [simp]: "run [] p = p"
  by (simp add: run_def)

lemma run_Cons [simp]: "run (e # evs) p = run evs (handle e p)"
  by (simp add: run_def)

lemma run_append [simp]: "run (xs @ ys) p = run ys (run xs p)"
  by (simp add: run_def)






















section \<open>Concurrent refreshes\<close>







lemma fire_length [simp]: "length (callers (fire i S)) = length (callers S)"
  by (simp add: fire_def Let_def split: pc.splits sum.splits prod.splits)

lemma exec_length [simp]: "length (callers (exec schedule S)) = length (callers S)"
  unfolding exec_def by (induction schedule arbitrary: S) simp_all







end
